theory Spec2Isabelle
  imports Complex_Main "HOL-Library.Char_ord" "HOL-Library.List_Lexorder"
    "HOL-Library.Product_Lexorder"
begin

section \<open>Data model of \<open>app.py\<close>\<close>

text \<open>
  Python exceptions that the modelled functions can raise.  \<open>AttributeError\<close> is what
  python-pptx raises when \<open>add_picture\<close> is handed \<open>None\<close> instead of a path.
\<close>

datatype py_error = IndexError | ValueError | AttributeError

text \<open>
  The radio button of \<open>load_first_page\<close> offers exactly three values for \<open>T_and_FM\<close>:
  \<open>"Both"\<close>, \<open>"Thresholding only"\<close> and \<open>"Find Maxima only"\<close>.
\<close>

datatype T_and_FM = Both | Thresholding_only | Find_Maxima_only

text \<open>
  One element of \<open>all_info_for_slides\<close>: the eight-element list
  \<open>[ROI_title, ROI_subtitle, ROI_Fluorescence_image, ROI_name, ROI_Tcount_image, ROI_Tcount,
  ROI_FMcount_image, ROI_FMcount]\<close> built at line 147.  The fields are named after the
  variables the list is built from; \<open>None\<close> is Python's \<open>None\<close>.
\<close>

record roi_info =
  ROI_title :: string
  ROI_subtitle :: string
  ROI_Fluorescence_image :: string
  ROI_name :: string
  ROI_Tcount_image :: "string option"
  ROI_Tcount :: "int option"
  ROI_FMcount_image :: "string option"
  ROI_FMcount :: "int option"

section \<open>Grouping into slides (\<open>process_files\<close>, lines 149--176)\<close>

text \<open>The four variables the grouping loop reads and writes.\<close>

record group_state =
  all_slides_content :: "roi_info list list"
  temp_slide :: "roi_info list"
  current_title :: string
  current_subtitle :: string

text \<open>One iteration of the loop body, lines 160--174.\<close>

definition group_step :: "group_state \<Rightarrow> roi_info \<Rightarrow> group_state" where
  "group_step s info =
     (let new_title = ROI_title info;
          new_subtitle = ROI_subtitle info;
          s' = (if length (temp_slide s) = 20 \<or> new_title \<noteq> current_title s
                   \<or> new_subtitle \<noteq> current_subtitle s
                then s\<lparr>all_slides_content := all_slides_content s @ [temp_slide s],
                       temp_slide := [],
                       current_title := new_title,
                       current_subtitle := new_subtitle\<rparr>
                else s)
      in s'\<lparr>temp_slide := temp_slide s' @ [info]\<rparr>)"

text \<open>The \<open>for info in all_info_for_slides\<close> loop.\<close>

fun group_loop :: "group_state \<Rightarrow> roi_info list \<Rightarrow> group_state" where
  "group_loop s [] = s"
| "group_loop s (info # rest) = group_loop (group_step s info) rest"

text \<open>
  Lines 150--176.  Reading \<open>all_info_for_slides[0]\<close> of an empty list raises
  \<open>IndexError\<close>.  The function returns \<open>all_slides_content\<close> as the loop leaves it:
  \<open>temp_slide\<close> is not read again after the loop.
\<close>

definition group_slides :: "roi_info list \<Rightarrow> py_error + roi_info list list" where
  "group_slides all_info_for_slides =
     (case all_info_for_slides of
        [] \<Rightarrow> Inl IndexError
      | first # _ \<Rightarrow>
          Inr (all_slides_content
                 (group_loop \<lparr>all_slides_content = [], temp_slide = [],
                              current_title = ROI_title first,
                              current_subtitle = ROI_subtitle first\<rparr>
                    all_info_for_slides)))"

section \<open>Python and library functions used by the extraction\<close>

text \<open>
  \<open>s.replace(old, new)\<close>: every non-overlapping occurrence of \<open>old\<close>, found from the
  left, is replaced.  With an empty \<open>old\<close> Python puts \<open>new\<close> before every character and
  at the end.
\<close>

function py_replace :: "string \<Rightarrow> string \<Rightarrow> string \<Rightarrow> string" where
  "py_replace s old new =
     (if old = [] then new @ concat (map (\<lambda>c. c # new) s)
      else if s = [] then []
      else if take (length old) s = old then new @ py_replace (drop (length old) s) old new
      else hd s # py_replace (tl s) old new)"
  by pat_completeness auto
termination
  by (relation "measure (\<lambda>(s, old, new). length s)") auto

declare py_replace.simps [simp del]

text \<open>
  \<open>os.path.join\<close> of \<open>posixpath\<close>: a component that starts with the separator discards
  what came before it; otherwise it is appended, after a separator unless the path so far
  is empty or ends with one.
\<close>

definition join_step :: "string \<Rightarrow> string \<Rightarrow> string" where
  "join_step path b =
     (if take 1 b = ''/'' then b
      else if path = [] \<or> last path = CHR ''/'' then path @ b
      else path @ ''/'' @ b)"

definition os_path_join :: "string \<Rightarrow> string list \<Rightarrow> string" where
  "os_path_join a p = foldl join_step a p"

text \<open>\<open>str\<close> of an integer: decimal digits, with a minus sign for negative numbers.\<close>

definition digit_char :: "nat \<Rightarrow> char" where
  "digit_char d = ''0123456789'' ! d"

fun digits :: "nat \<Rightarrow> string" where
  "digits n = (if n < 10 then [digit_char n] else digits (n div 10) @ [digit_char (n mod 10)])"

declare digits.simps [simp del]

definition py_str :: "int \<Rightarrow> string" where
  "py_str n = (if n < 0 then CHR ''-'' # digits (nat (- n)) else digits (nat n))"

text \<open>\<open>str\<close> of a value that may be \<open>None\<close>.\<close>

definition py_str_opt :: "int option \<Rightarrow> string" where
  "py_str_opt v = (case v of None \<Rightarrow> ''None'' | Some n \<Rightarrow> py_str n)"

text \<open>
  \<open>int\<close> of a string of ASCII characters: surrounding whitespace (space, tab, line
  feed, vertical tab, form feed, carriage return) is stripped, one sign is allowed, then
  decimal digits follow, single underscores being allowed between digits.  Anything else
  raises \<open>ValueError\<close>.  Text with characters beyond ASCII is outside the model.
\<close>

definition is_space :: "char \<Rightarrow> bool" where
  "is_space c = (c \<in> set [CHR '' '', CHR 0x09, CHR 0x0A, CHR 0x0B, CHR 0x0C, CHR 0x0D])"

definition strip :: "string \<Rightarrow> string" where
  "strip s = rev (dropWhile is_space (rev (dropWhile is_space s)))"

definition digit_val :: "char \<Rightarrow> nat option" where
  "digit_val c = map_of (zip ''0123456789'' [0 ..< 10]) c"

fun need_digit :: "nat \<Rightarrow> string \<Rightarrow> nat option"
  and after_digit :: "nat \<Rightarrow> string \<Rightarrow> nat option" where
  "need_digit acc [] = None"
| "need_digit acc (c # cs) =
     (case digit_val c of None \<Rightarrow> None | Some d \<Rightarrow> after_digit (10 * acc + d) cs)"
| "after_digit acc [] = Some acc"
| "after_digit acc (c # cs) =
     (if c = CHR ''_'' then need_digit acc cs
      else case digit_val c of None \<Rightarrow> None | Some d \<Rightarrow> after_digit (10 * acc + d) cs)"

definition py_int :: "string \<Rightarrow> py_error + int" where
  "py_int s =
     (let t = strip s;
          neg = (take 1 t = ''-'');
          body = (if take 1 t = ''-'' \<or> take 1 t = ''+'' then drop 1 t else t)
      in case need_digit 0 body of
           None \<Rightarrow> Inl ValueError
         | Some n \<Rightarrow> Inr (if neg then - int n else int n))"

text \<open>\<open>Series.apply(f)\<close>: \<open>f\<close> on every element in order; the first exception ends it.\<close>

fun apply_all :: "('a \<Rightarrow> py_error + 'b) \<Rightarrow> 'a list \<Rightarrow> py_error + 'b list" where
  "apply_all f [] = Inr []"
| "apply_all f (x # xs) =
     (case f x of
        Inl e \<Rightarrow> Inl e
      | Inr y \<Rightarrow> (case apply_all f xs of Inl e \<Rightarrow> Inl e | Inr ys \<Rightarrow> Inr (y # ys)))"

section \<open>Extraction of the records (\<open>process_files\<close>, lines 100--147)\<close>

text \<open>
  A row of \<open>results_table\<close> as \<open>pd.read_csv\<close> returns it.  The columns
  \<open>"Image used"\<close> and \<open>"Cell quantified"\<close> hold text; the two count columns hold numbers,
  \<open>None\<close> standing for a missing value, on which \<open>int\<close> raises \<open>ValueError\<close>.  The type
  parameter is the type of the \<open>"Cell quantified"\<close> column: text as read, an integer after
  line 113.
\<close>

record 'c table_row =
  Image_used :: string
  Cell_quantified :: 'c
  Particle_count_threshold :: "int option"
  Particle_count_maxima :: "int option"

text \<open>
  An element \<open>[csv_root_folder, csv_file]\<close> of \<open>exp_conditions_info\<close>, together with the
  table that \<open>pd.read_csv\<close> reads from \<open>csv_file\<close>.
\<close>

record condition_info =
  csv_root_folder :: string
  csv_file :: string
  csv_table :: "string table_row list"

text \<open>\<open>int\<close> of a count cell.\<close>

definition int_of_cell :: "int option \<Rightarrow> py_error + int option" where
  "int_of_cell v = (case v of None \<Rightarrow> Inl ValueError | Some n \<Rightarrow> Inr (Some n))"

text \<open>Line 113: \<open>"Cell quantified"\<close> becomes an integer column.\<close>

definition cell_to_int :: "string table_row \<Rightarrow> py_error + int table_row" where
  "cell_to_int row =
     (case py_int (Cell_quantified row) of
        Inl e \<Rightarrow> Inl e
      | Inr n \<Rightarrow> Inr \<lparr>Image_used = Image_used row, Cell_quantified = n,
                     Particle_count_threshold = Particle_count_threshold row,
                     Particle_count_maxima = Particle_count_maxima row\<rparr>)"

text \<open>Lines 115 and 117: \<open>int\<close> on a count column.\<close>

definition threshold_to_int :: "int table_row \<Rightarrow> py_error + int table_row" where
  "threshold_to_int row =
     (case int_of_cell (Particle_count_threshold row) of
        Inl e \<Rightarrow> Inl e
      | Inr v \<Rightarrow> Inr (row\<lparr>Particle_count_threshold := v\<rparr>))"

definition maxima_to_int :: "int table_row \<Rightarrow> py_error + int table_row" where
  "maxima_to_int row =
     (case int_of_cell (Particle_count_maxima row) of
        Inl e \<Rightarrow> Inl e
      | Inr v \<Rightarrow> Inr (row\<lparr>Particle_count_maxima := v\<rparr>))"

text \<open>
  Lines 110--118.  The text replacements are literal ones.  \<open>sort_values\<close> on the two
  columns is a stable sort on the pair (text by code point, then integer).
\<close>

definition clean_table :: "T_and_FM \<Rightarrow> string table_row list \<Rightarrow> py_error + int table_row list" where
  "clean_table mode results_table =
     (let t1 = map (\<lambda>row. row\<lparr>Image_used := py_replace (Image_used row) ''MAX_'' []\<rparr>)
                 results_table;
          t2 = map (\<lambda>row. row\<lparr>Image_used := py_replace (Image_used row) ''.tif'' []\<rparr>) t1;
          t3 = map (\<lambda>row. row\<lparr>Cell_quantified :=
                                 py_replace (Cell_quantified row) ''_1.roi'' []\<rparr>) t2
      in case apply_all cell_to_int t3 of
           Inl e \<Rightarrow> Inl e
         | Inr t4 \<Rightarrow>
            (case (if mode = Both \<or> mode = Thresholding_only
                   then apply_all threshold_to_int t4 else Inr t4) of
               Inl e \<Rightarrow> Inl e
             | Inr t5 \<Rightarrow>
                (case (if mode = Both \<or> mode = Find_Maxima_only
                       then apply_all maxima_to_int t5 else Inr t5) of
                   Inl e \<Rightarrow> Inl e
                 | Inr t6 \<Rightarrow>
                     Inr (sort_key (\<lambda>row. (Image_used row, Cell_quantified row)) t6))))"

text \<open>Lines 124--147: the record built from one row of the sorted table.\<close>

definition row_info :: "T_and_FM \<Rightarrow> condition_info \<Rightarrow> int table_row \<Rightarrow> roi_info" where
  "row_info mode cond row =
     (let title = csv_root_folder cond;
          subtitle = Image_used row;
          name = py_str (Cell_quantified row);
          Fluorescence_image =
            py_replace (csv_file cond)
              (os_path_join ''Quantification'' [''Results.csv''])
              (os_path_join ''Cropped cells'' [''Fluorescence'', subtitle, name @ ''_2.jpg''])
      in if mode = Thresholding_only then
           \<lparr>ROI_title = title, ROI_subtitle = subtitle,
            ROI_Fluorescence_image = Fluorescence_image, ROI_name = name,
            ROI_Tcount_image =
              Some (py_replace (py_replace Fluorescence_image ''Fluorescence'' ''T_Particles'')
                      ''_2.jpg'' ''_1.jpg''),
            ROI_Tcount = Particle_count_threshold row,
            ROI_FMcount_image = None,
            ROI_FMcount = None\<rparr>
         else if mode = Find_Maxima_only then
           \<lparr>ROI_title = title, ROI_subtitle = subtitle,
            ROI_Fluorescence_image = Fluorescence_image, ROI_name = name,
            ROI_Tcount_image = None,
            ROI_Tcount = None,
            ROI_FMcount_image =
              Some (py_replace (py_replace Fluorescence_image ''Fluorescence'' ''FM_Particles'')
                      ''_2.jpg'' ''_1.jpg''),
            ROI_FMcount = Particle_count_maxima row\<rparr>
         else
           \<lparr>ROI_title = title, ROI_subtitle = subtitle,
            ROI_Fluorescence_image = Fluorescence_image, ROI_name = name,
            ROI_Tcount_image =
              Some (py_replace (py_replace Fluorescence_image ''Fluorescence'' ''T_Particles'')
                      ''_2.jpg'' ''_1.jpg''),
            ROI_Tcount = Particle_count_threshold row,
            ROI_FMcount_image =
              Some (py_replace (py_replace Fluorescence_image ''Fluorescence'' ''FM_Particles'')
                      ''_2.jpg'' ''_1.jpg''),
            ROI_FMcount = Particle_count_maxima row\<rparr>)"

text \<open>The body of the loop over \<open>exp_conditions_info\<close> for one condition.\<close>

definition condition_records :: "T_and_FM \<Rightarrow> condition_info \<Rightarrow> py_error + roi_info list" where
  "condition_records mode cond =
     (case clean_table mode (csv_table cond) of
        Inl e \<Rightarrow> Inl e
      | Inr results_table \<Rightarrow> Inr (map (row_info mode cond) results_table))"

text \<open>Lines 101--147: \<open>all_info_for_slides\<close> after the loop over all conditions.\<close>

fun extract_all :: "T_and_FM \<Rightarrow> roi_info list \<Rightarrow> condition_info list \<Rightarrow> py_error + roi_info list" where
  "extract_all mode all_info_for_slides [] = Inr all_info_for_slides"
| "extract_all mode all_info_for_slides (cond # rest) =
     (case condition_records mode cond of
        Inl e \<Rightarrow> Inl e
      | Inr recs \<Rightarrow> extract_all mode (all_info_for_slides @ recs) rest)"

text \<open>\<open>process_files\<close> from line 94 on, given \<open>exp_conditions_info\<close> and the tables.\<close>

definition process_files :: "T_and_FM \<Rightarrow> condition_info list \<Rightarrow> py_error + roi_info list list" where
  "process_files mode exp_conditions_info =
     (case extract_all mode [] exp_conditions_info of
        Inl e \<Rightarrow> Inl e
      | Inr all_info_for_slides \<Rightarrow> group_slides all_info_for_slides)"

section \<open>Slides (\<open>slide_maker\<close>, lines 262--380)\<close>

text \<open>
  Position and size of a shape: the four numbers, in centimetres, that the code passes
  through \<open>Cm\<close> to \<open>add_textbox\<close> and \<open>add_picture\<close>, written as the source writes them.
\<close>

record geometry =
  g_left :: rat
  g_top :: rat
  g_width :: rat
  g_height :: rat

text \<open>
  What \<open>slide_maker\<close> adds to a slide.  A text box has its text, whether the code sets
  \<open>font.bold\<close>, and the font size in points; every text box is centred and set in
  Times New Roman.  A picture has its image file and whether the code gives it an outline.
\<close>

datatype shape =
    Textbox geometry string bool nat
  | Picture geometry string bool

fun shape_geometry :: "shape \<Rightarrow> geometry" where
  "shape_geometry (Textbox g txt b sz) = g"
| "shape_geometry (Picture g file outl) = g"

type_synonym slide = "shape list"

definition title_width :: rat where "title_width = 17"
definition title_height :: rat where "title_height = 1.5"
definition title_left_coordinate :: rat where "title_left_coordinate = 0"
definition title_top_coordinate :: rat where "title_top_coordinate = 0"

definition subtitle_width :: rat where "subtitle_width = 17"
definition subtitle_height :: rat where "subtitle_height = 1.5"
definition subtitle_left_coordinate :: rat where "subtitle_left_coordinate = 17"
definition subtitle_top_coordinate :: rat where "subtitle_top_coordinate = 0"

definition image_width :: rat where "image_width = 3.25"
definition image_height :: rat where "image_height = 3"

definition image_coordinates :: "(rat \<times> rat \<times> rat \<times> rat) list" where
  "image_coordinates =
    [(0.25, 2.1, 3.5, 2.1), (7, 2.1, 10.25, 2.1), (13.75, 2.1, 17, 2.1),
     (20.5, 2.1, 23.75, 2.1), (27.25, 2.1, 30.5, 2.1),
     (0.25, 6.4, 3.5, 6.4), (7, 6.4, 10.25, 6.4), (13.75, 6.4, 17, 6.4),
     (20.5, 6.4, 23.75, 6.4), (27.25, 6.4, 30.5, 6.4),
     (0.25, 10.7, 3.5, 10.7), (7, 10.7, 10.25, 10.7), (13.75, 10.7, 17, 10.7),
     (20.5, 10.7, 23.75, 10.7), (27.25, 10.7, 30.5, 10.7),
     (0.25, 15, 3.5, 15), (7, 15, 10.25, 15), (13.75, 15, 17, 15),
     (20.5, 15, 23.75, 15), (27.25, 15, 30.5, 15)]"

definition image_labels_width :: rat where "image_labels_width = 3.25"
definition image_labels_height :: rat where "image_labels_height = 1"

definition image_labels_coordinates :: "(rat \<times> rat \<times> rat \<times> rat) list" where
  "image_labels_coordinates =
    [(0.25, 5.1, 3.5, 5.1), (7, 5.1, 10.25, 5.1), (13.75, 5.1, 17, 5.1),
     (20.5, 5.1, 23.75, 5.1), (27.25, 5.1, 30.5, 5.1),
     (0.25, 9.4, 3.5, 9.4), (7, 9.4, 10.25, 9.4), (13.75, 9.4, 17, 9.4),
     (20.5, 9.4, 23.75, 9.4), (27.25, 9.4, 30.5, 9.4),
     (0.25, 13.7, 3.5, 13.7), (7, 13.7, 10.25, 13.7), (13.75, 13.7, 17, 13.7),
     (20.5, 13.7, 23.75, 13.7), (27.25, 13.7, 30.5, 13.7),
     (0.25, 18, 3.5, 18), (7, 18, 10.25, 18), (13.75, 18, 17, 18),
     (20.5, 18, 23.75, 18), (27.25, 18, 30.5, 18)]"

text \<open>\<open>xs[i]\<close> for \<open>i \<ge> 0\<close>: \<open>IndexError\<close> past the end.\<close>

definition py_index :: "'a list \<Rightarrow> nat \<Rightarrow> py_error + 'a" where
  "py_index xs i = (if i < length xs then Inr (xs ! i) else Inl IndexError)"

text \<open>
  \<open>slide.shapes.add_picture\<close>: the image argument is a path; python-pptx raises
  \<open>AttributeError\<close> on \<open>None\<close>.  Whether the file exists is outside the model.
\<close>

definition add_picture :: "string option \<Rightarrow> geometry \<Rightarrow> bool \<Rightarrow> py_error + shape" where
  "add_picture image_file g outl =
     (case image_file of None \<Rightarrow> Inl AttributeError | Some f \<Rightarrow> Inr (Picture g f outl))"

text \<open>
  The body of the loop \<open>for i in range(image_count_for_slide)\<close>, lines 333--378: the four
  shapes added for slot \<open>i\<close>, in the order the code adds them.
\<close>

definition slot_shapes ::
  "nat \<Rightarrow> string list \<Rightarrow> string option list \<Rightarrow> string list \<Rightarrow> int option list
     \<Rightarrow> py_error + shape list" where
  "slot_shapes i F_images_for_slide P_images_for_slide F_images_labels P_images_labels =
     (case py_index F_images_for_slide i of Inl e \<Rightarrow> Inl e | Inr fluorescence_image \<Rightarrow>
     (case py_index P_images_for_slide i of Inl e \<Rightarrow> Inl e | Inr particle_image \<Rightarrow>
     (case py_index image_coordinates i of Inl e \<Rightarrow> Inl e | Inr (fl, ft, pl, pt) \<Rightarrow>
     (case add_picture (Some fluorescence_image)
             \<lparr>g_left = fl, g_top = ft, g_width = image_width, g_height = image_height\<rparr> False
        of Inl e \<Rightarrow> Inl e | Inr inserting_image \<Rightarrow>
     (case py_index image_labels_coordinates i of Inl e \<Rightarrow> Inl e | Inr (lfl, lft, lpl, lpt) \<Rightarrow>
     (case py_index F_images_labels i of Inl e \<Rightarrow> Inl e | Inr F_label \<Rightarrow>
     (case add_picture particle_image
             \<lparr>g_left = pl, g_top = pt, g_width = image_width, g_height = image_height\<rparr> True
        of Inl e \<Rightarrow> Inl e | Inr inserting_image2 \<Rightarrow>
     (case py_index P_images_labels i of Inl e \<Rightarrow> Inl e | Inr P_label \<Rightarrow>
        Inr [inserting_image,
             Textbox \<lparr>g_left = lfl, g_top = lft, g_width = image_labels_width,
                      g_height = image_labels_height\<rparr> F_label False 20,
             inserting_image2,
             Textbox \<lparr>g_left = lpl, g_top = lpt, g_width = image_labels_width,
                      g_height = image_labels_height\<rparr>
               (''P='' @ py_str_opt P_label) False 20]))))))))"

text \<open>The loop over the slots, adding to the shapes already on the slide.\<close>

fun slot_loop ::
  "nat list \<Rightarrow> string list \<Rightarrow> string option list \<Rightarrow> string list \<Rightarrow> int option list
     \<Rightarrow> slide \<Rightarrow> py_error + slide" where
  "slot_loop [] F P FL PL sl = Inr sl"
| "slot_loop (i # rest) F P FL PL sl =
     (case slot_shapes i F P FL PL of
        Inl e \<Rightarrow> Inl e
      | Inr shapes \<Rightarrow> slot_loop rest F P FL PL (sl @ shapes))"

text \<open>
  \<open>slide_maker\<close>: a presentation is the list of its slides; the new slide is added at
  the end.  An exception leaves no presentation to the caller.
\<close>

definition slide_maker ::
  "slide list \<Rightarrow> string \<Rightarrow> string \<Rightarrow> nat \<Rightarrow> string list \<Rightarrow> string option list
     \<Rightarrow> string list \<Rightarrow> int option list \<Rightarrow> py_error + slide list" where
  "slide_maker presentation_input current_slide_title current_slide_subtitle
     image_count_for_slide F_images_for_slide P_images_for_slide F_images_labels
     P_images_labels =
     (let title_textbox =
            Textbox \<lparr>g_left = title_left_coordinate, g_top = title_top_coordinate,
                     g_width = title_width, g_height = title_height\<rparr>
              current_slide_title True 32;
          subtitle_textbox =
            Textbox \<lparr>g_left = subtitle_left_coordinate, g_top = subtitle_top_coordinate,
                     g_width = subtitle_width, g_height = subtitle_height\<rparr>
              current_slide_subtitle False 32
      in case slot_loop [0 ..< image_count_for_slide] F_images_for_slide P_images_for_slide
                F_images_labels P_images_labels [title_textbox, subtitle_textbox] of
           Inl e \<Rightarrow> Inl e
         | Inr sl \<Rightarrow> Inr (presentation_input @ [sl]))"

section \<open>Presentations (\<open>generate_pptxs\<close>, lines 182--256)\<close>

text \<open>Which of the two mask images and counts a pass shows.\<close>

datatype variant = Thresholding | Find_Maxima





section \<open>Properties and sample data\<close>

text \<open>A group of records is homogeneous when all its records agree on title and subtitle.\<close>

definition homogeneous :: "roi_info list \<Rightarrow> bool" where
  "homogeneous page =
     (\<forall>r1 \<in> set page. \<forall>r2 \<in> set page.
        ROI_title r1 = ROI_title r2 \<and> ROI_subtitle r1 = ROI_subtitle r2)"

text \<open>
  Loop invariant for the sizes: every closed group has 1 to 20 records, the open group
  has at most 20, and while the open group is empty the next record carries the current
  title and subtitle (so the first iteration closes nothing).
\<close>

definition sizes_ok :: "group_state \<Rightarrow> roi_info list \<Rightarrow> bool" where
  "sizes_ok s xs =
     ((\<forall>p \<in> set (all_slides_content s). 1 \<le> length p \<and> length p \<le> 20)
      \<and> length (temp_slide s) \<le> 20
      \<and> (temp_slide s = [] \<longrightarrow>
            (case xs of [] \<Rightarrow> True
             | x # _ \<Rightarrow> ROI_title x = current_title s \<and> ROI_subtitle x = current_subtitle s)))"

text \<open>
  Loop invariant for the groups: closed groups are homogeneous and the open group holds
  only records of the current title and subtitle.
\<close>

definition groups_ok :: "group_state \<Rightarrow> bool" where
  "groups_ok s =
     ((\<forall>p \<in> set (all_slides_content s). homogeneous p)
      \<and> (\<forall>r \<in> set (temp_slide s).
            ROI_title r = current_title s \<and> ROI_subtitle r = current_subtitle s))"

text \<open>A record with the given title and subtitle, for concrete runs.\<close>

definition sample_info :: "string \<Rightarrow> string \<Rightarrow> roi_info" where
  "sample_info t s =
     \<lparr>ROI_title = t, ROI_subtitle = s, ROI_Fluorescence_image = ''f_2.jpg'',
      ROI_name = ''1'', ROI_Tcount_image = Some ''t_1.jpg'', ROI_Tcount = Some 7,
      ROI_FMcount_image = Some ''m_1.jpg'', ROI_FMcount = Some 8\<rparr>"

text \<open>
  The four shapes \<open>slot_shapes\<close> returns for slot \<open>i\<close> when nothing raises, given
  the fluorescence image, its label, the particle image and the count.
\<close>

definition slot_result :: "nat \<Rightarrow> string \<Rightarrow> string \<Rightarrow> string \<Rightarrow> int option \<Rightarrow> shape list" where
  "slot_result i f fl p c =
     (case image_coordinates ! i of (x, y, px, py) \<Rightarrow>
      (case image_labels_coordinates ! i of (lx, ly, lpx, lpy) \<Rightarrow>
        [Picture \<lparr>g_left = x, g_top = y, g_width = image_width,
                   g_height = image_height\<rparr> f False,
         Textbox \<lparr>g_left = lx, g_top = ly, g_width = image_labels_width,
                   g_height = image_labels_height\<rparr> fl False 20,
         Picture \<lparr>g_left = px, g_top = py, g_width = image_width,
                   g_height = image_height\<rparr> p True,
         Textbox \<lparr>g_left = lpx, g_top = lpy, g_width = image_labels_width,
                   g_height = image_labels_height\<rparr> (''P='' @ py_str_opt c) False 20]))"

text \<open>Slot \<open>i\<close> raises nothing: every list is long enough and the particle image is there.\<close>

definition slot_ok ::
  "nat \<Rightarrow> string list \<Rightarrow> string option list \<Rightarrow> string list \<Rightarrow> int option list \<Rightarrow> bool" where
  "slot_ok i F P FL PL =
     (i < length F \<and> i < length P \<and> i < 20 \<and> i < length FL \<and> i < length PL
      \<and> P ! i \<noteq> None)"

text \<open>The text of a text box.\<close>

fun shape_text :: "shape \<Rightarrow> string option" where
  "shape_text (Textbox g txt b sz) = Some txt"
| "shape_text (Picture g file outl) = None"

text \<open>Whether \<open>generate_pptxs\<close> runs the pass of a variant (the tests at lines 191 and 226).\<close>

definition active :: "T_and_FM \<Rightarrow> variant \<Rightarrow> bool" where
  "active mode v =
     (case v of Thresholding \<Rightarrow> mode = Both \<or> mode = Thresholding_only
              | Find_Maxima \<Rightarrow> mode = Both \<or> mode = Find_Maxima_only)"



text \<open>
  The shape of a record under a mode: for a variant whose pass is run, mask image and
  count are both there; for the other variant both are \<open>None\<close>.
\<close>

definition fits :: "T_and_FM \<Rightarrow> roi_info \<Rightarrow> bool" where
  "fits mode r =
     ((if active mode Thresholding
       then ROI_Tcount_image r \<noteq> None \<and> ROI_Tcount r \<noteq> None
       else ROI_Tcount_image r = None \<and> ROI_Tcount r = None)
      \<and> (if active mode Find_Maxima
          then ROI_FMcount_image r \<noteq> None \<and> ROI_FMcount r \<noteq> None
          else ROI_FMcount_image r = None \<and> ROI_FMcount r = None))"

text \<open>The number that the name of a record stands for.\<close>

definition roi_id :: "roi_info \<Rightarrow> int" where
  "roi_id r = (case py_int (ROI_name r) of Inl e \<Rightarrow> 0 | Inr n \<Rightarrow> n)"

text \<open>
  A condition with three rows, given in the order of the file: two cells of one image,
  cell 10 before cell 9, and one cell of a second image.
\<close>

definition sample_condition :: condition_info where
  "sample_condition =
     \<lparr>csv_root_folder = ''Cond1'',
      csv_file = ''/Data/Cond1/Quantification/Results.csv'',
      csv_table =
        [\<lparr>Image_used = ''MAX_Row_01_05.tif'', Cell_quantified = ''10_1.roi'',
          Particle_count_threshold = Some 4, Particle_count_maxima = Some 5\<rparr>,
         \<lparr>Image_used = ''MAX_Row_01_05.tif'', Cell_quantified = ''9_1.roi'',
          Particle_count_threshold = Some 6, Particle_count_maxima = Some 7\<rparr>,
         \<lparr>Image_used = ''MAX_Row_02_05.tif'', Cell_quantified = ''3_1.roi'',
          Particle_count_threshold = Some 8, Particle_count_maxima = Some 9\<rparr>]\<rparr>"

text \<open>
  The rows of the cells \<open>cells\<close> of one image, as the quantification writes them, and a
  condition made of given rows.
\<close>

definition image_rows :: "string \<Rightarrow> nat list \<Rightarrow> string table_row list" where
  "image_rows img cells =
     map (\<lambda>n. \<lparr>Image_used = img, Cell_quantified = py_str (int n) @ ''_1.roi'',
                 Particle_count_threshold = Some (int n), Particle_count_maxima = Some 0\<rparr>)
       cells"

definition one_condition :: "string table_row list \<Rightarrow> condition_info" where
  "one_condition rows =
     \<lparr>csv_root_folder = ''Cond1'', csv_file = ''/Data/Cond1/Quantification/Results.csv'',
      csv_table = rows\<rparr>"

text \<open>
  A condition whose folder is called \<open>Fluorescence ctrl\<close>, with one cell of one image.
\<close>

definition fluorescence_ctrl :: condition_info where
  "fluorescence_ctrl =
     \<lparr>csv_root_folder = ''Fluorescence ctrl'',
      csv_file = ''/Data/Fluorescence ctrl/Quantification/Results.csv'',
      csv_table = image_rows ''MAX_A.tif'' [1]\<rparr>"

section \<open>The grouping loop\<close>

subsection \<open>One step, on a state written out\<close>

lemma group_step_keep:
  "length tmp \<noteq> 20 \<Longrightarrow> ROI_title x = ct \<Longrightarrow> ROI_subtitle x = cs \<Longrightarrow>
   group_step \<lparr>all_slides_content = ps, temp_slide = tmp,
               current_title = ct, current_subtitle = cs\<rparr> x
   = \<lparr>all_slides_content = ps, temp_slide = tmp @ [x],
      current_title = ct, current_subtitle = cs\<rparr>"
  by (simp add: group_step_def Let_def)

lemma group_step_break:
  "length tmp = 20 \<or> ROI_title x \<noteq> ct \<or> ROI_subtitle x \<noteq> cs \<Longrightarrow>
   group_step \<lparr>all_slides_content = ps, temp_slide = tmp,
               current_title = ct, current_subtitle = cs\<rparr> x
   = \<lparr>all_slides_content = ps @ [tmp], temp_slide = [x],
      current_title = ROI_title x, current_subtitle = ROI_subtitle x\<rparr>"
  by (auto simp add: group_step_def Let_def)

lemma group_slides_Cons:
  "group_slides (x # rest) =
     Inr (all_slides_content
            (group_loop \<lparr>all_slides_content = [], temp_slide = [],
                         current_title = ROI_title x, current_subtitle = ROI_subtitle x\<rparr>
               (x # rest)))"
  by (simp add: group_slides_def)

subsection \<open>What the loop keeps and what it leaves behind\<close>





subsection \<open>Sizes of the groups\<close>

lemma sizes_ok_step:
  assumes a: "sizes_ok s (x # xs)"
  shows "sizes_ok (group_step s x) xs"
proof (cases "length (temp_slide s) = 20 \<or> ROI_title x \<noteq> current_title s
                \<or> ROI_subtitle x \<noteq> current_subtitle s")
  case True
  then have g: "group_step s x =
      s\<lparr>all_slides_content := all_slides_content s @ [temp_slide s],
        temp_slide := [x], current_title := ROI_title x,
        current_subtitle := ROI_subtitle x\<rparr>"
    by (simp add: group_step_def Let_def)
  from True a have "temp_slide s \<noteq> []" by (auto simp: sizes_ok_def)
  then have "1 \<le> length (temp_slide s)" by (cases "temp_slide s") simp_all
  with a show ?thesis unfolding g by (simp add: sizes_ok_def)
next
  case False
  then have g: "group_step s x = s\<lparr>temp_slide := temp_slide s @ [x]\<rparr>"
    by (simp add: group_step_def Let_def)
  from False a have "length (temp_slide s) < 20" by (simp add: sizes_ok_def)
  with a show ?thesis unfolding g by (simp add: sizes_ok_def)
qed

lemma sizes_ok_loop:
  "sizes_ok s xs \<Longrightarrow> p \<in> set (all_slides_content (group_loop s xs))
     \<Longrightarrow> 1 \<le> length p \<and> length p \<le> 20"
proof (induction xs arbitrary: s)
  case Nil
  then show ?case by (simp add: sizes_ok_def)
next
  case (Cons x xs)
  from Cons.prems(1) have "sizes_ok (group_step s x) xs" by (rule sizes_ok_step)
  with Cons.IH Cons.prems(2) show ?case by simp
qed

subsection \<open>Homogeneity of the groups\<close>

lemma homogeneous_same:
  "\<forall>r \<in> set p. ROI_title r = t \<and> ROI_subtitle r = u \<Longrightarrow> homogeneous p"
  by (simp add: homogeneous_def)

lemma groups_ok_step:
  assumes a: "groups_ok s"
  shows "groups_ok (group_step s x)"
proof (cases "length (temp_slide s) = 20 \<or> ROI_title x \<noteq> current_title s
                \<or> ROI_subtitle x \<noteq> current_subtitle s")
  case True
  then have g: "group_step s x =
      s\<lparr>all_slides_content := all_slides_content s @ [temp_slide s],
        temp_slide := [x], current_title := ROI_title x,
        current_subtitle := ROI_subtitle x\<rparr>"
    by (simp add: group_step_def Let_def)
  from a have "homogeneous (temp_slide s)"
    using homogeneous_same [of "temp_slide s" "current_title s" "current_subtitle s"]
    by (simp add: groups_ok_def)
  with a show ?thesis unfolding g by (simp add: groups_ok_def)
next
  case False
  then have g: "group_step s x = s\<lparr>temp_slide := temp_slide s @ [x]\<rparr>"
    by (simp add: group_step_def Let_def)
  from False a show ?thesis unfolding g by (simp add: groups_ok_def)
qed

lemma groups_ok_loop: "groups_ok s \<Longrightarrow> groups_ok (group_loop s xs)"
  by (induction xs arbitrary: s) (simp_all add: groups_ok_step)

subsection \<open>The groups returned\<close>

lemma group_slides_sizes:
  assumes "group_slides xs = Inr pages" and "page \<in> set pages"
  shows "1 \<le> length page \<and> length page \<le> 20"
proof (cases xs)
  case Nil
  with assms show ?thesis by (simp add: group_slides_def)
next
  case (Cons x rest)
  define s0 where "s0 = \<lparr>all_slides_content = [], temp_slide = [],
      current_title = ROI_title x, current_subtitle = ROI_subtitle x\<rparr>"
  have p: "pages = all_slides_content (group_loop s0 xs)"
    using assms(1) Cons by (simp add: group_slides_Cons s0_def)
  have "sizes_ok s0 xs" using Cons by (simp add: sizes_ok_def s0_def)
  with assms(2) show ?thesis unfolding p by (rule sizes_ok_loop[rotated])
qed


subsection \<open>Concrete runs\<close>

lemma run_23: "group_slides (replicate 23 r) = Inr [replicate 20 r]"
  by (simp add: group_slides_def eval_nat_numeral group_step_keep group_step_break)

lemma run_20: "group_slides (replicate 20 r) = Inr []"
  by (simp add: group_slides_def eval_nat_numeral group_step_keep group_step_break)

lemma run_1: "group_slides [r] = Inr []"
  by (simp add: group_slides_def group_step_keep)

lemma run_5_3:
  "group_slides (replicate 5 (sample_info ''T'' ''A'') @ replicate 3 (sample_info ''T'' ''B''))
     = Inr [replicate 5 (sample_info ''T'' ''A'')]"
  by (simp add: group_slides_def eval_nat_numeral group_step_keep group_step_break
        sample_info_def)

section \<open>The slide of a group\<close>

lemma py_index_Inr: "(py_index xs i = Inr v) = (i < length xs \<and> v = xs ! i)"
  by (auto simp: py_index_def)

lemma length_image_coordinates: "length image_coordinates = 20"
  by (simp add: image_coordinates_def)

lemma length_image_labels_coordinates: "length image_labels_coordinates = 20"
  by (simp add: image_labels_coordinates_def)

lemma slot_shapes_iff:
  "(slot_shapes i F P FL PL = Inr sh) =
     (slot_ok i F P FL PL \<and> sh = slot_result i (F ! i) (FL ! i) (the (P ! i)) (PL ! i))"
  unfolding slot_shapes_def add_picture_def slot_ok_def slot_result_def
  by (auto simp: py_index_def length_image_coordinates length_image_labels_coordinates
        split: sum.splits option.splits prod.splits)

lemma slot_loop_iff:
  "(slot_loop js F P FL PL sl = Inr r) =
     ((\<forall>i \<in> set js. slot_ok i F P FL PL)
      \<and> r = sl @ concat (map (\<lambda>i. slot_result i (F ! i) (FL ! i) (the (P ! i)) (PL ! i)) js))"
proof (induction js arbitrary: sl)
  case Nil
  show ?case by auto
next
  case (Cons j js)
  show ?case
  proof (cases "slot_shapes j F P FL PL")
    case (Inl e)
    then have "\<not> slot_ok j F P FL PL"
      using slot_shapes_iff [of j F P FL PL] by auto
    with Inl show ?thesis by simp
  next
    case (Inr sh)
    then have "slot_ok j F P FL PL"
      and "sh = slot_result j (F ! j) (FL ! j) (the (P ! j)) (PL ! j)"
      by (simp_all add: slot_shapes_iff)
    with Inr Cons.IH [of "sl @ sh"] show ?thesis by auto
  qed
qed

lemma slot_result_geometry:
  "map shape_geometry (slot_result i f fl p c) = map shape_geometry (slot_result i f' fl' p' c')"
  by (simp add: slot_result_def split: prod.splits)


lemma concat_blocks_geometry:
  "map shape_geometry (concat (map (\<lambda>i. slot_result i (f i) (fl i) (p i) (c i)) js))
   = map shape_geometry (concat (map (\<lambda>i. slot_result i (f' i) (fl' i) (p' i) (c' i)) js))"
proof (induction js)
  case Nil show ?case by simp
next
  case (Cons j js)
  then show ?case
    using slot_result_geometry [of j "f j" "fl j" "p j" "c j" "f' j" "fl' j" "p' j" "c' j"]
    by simp
qed


lemma slot_loop_Inl:
  assumes "slot_loop js F P FL PL sl = Inl e"
  shows "\<not> (\<forall>i \<in> set js. slot_ok i F P FL PL)"
  using assms
    slot_loop_iff [of js F P FL PL sl
      "sl @ concat (map (\<lambda>i. slot_result i (F ! i) (FL ! i) (the (P ! i)) (PL ! i)) js)"]
  by auto

lemma slide_maker_iff:
  "(slide_maker pres t s n F P FL PL = Inr pres') =
     ((\<forall>i < n. slot_ok i F P FL PL)
      \<and> pres' = pres @
          [[Textbox \<lparr>g_left = title_left_coordinate, g_top = title_top_coordinate,
                     g_width = title_width, g_height = title_height\<rparr> t True 32,
            Textbox \<lparr>g_left = subtitle_left_coordinate, g_top = subtitle_top_coordinate,
                     g_width = subtitle_width, g_height = subtitle_height\<rparr> s False 32]
           @ concat (map (\<lambda>i. slot_result i (F ! i) (FL ! i) (the (P ! i)) (PL ! i)) [0 ..< n])])"
proof (cases "slot_loop [0 ..< n] F P FL PL
      [Textbox \<lparr>g_left = title_left_coordinate, g_top = title_top_coordinate,
                 g_width = title_width, g_height = title_height\<rparr> t True 32,
       Textbox \<lparr>g_left = subtitle_left_coordinate, g_top = subtitle_top_coordinate,
                 g_width = subtitle_width, g_height = subtitle_height\<rparr> s False 32]")
  case (Inl e)
  from slot_loop_Inl [OF Inl] have "\<not> (\<forall>i < n. slot_ok i F P FL PL)" by auto
  with Inl show ?thesis by (simp add: slide_maker_def)
next
  case (Inr sl)
  from Inr [unfolded slot_loop_iff] Inr show ?thesis
    by (auto simp: slide_maker_def)
qed





section \<open>The extracted records\<close>

lemma apply_all_set:
  "apply_all f xs = Inr ys \<Longrightarrow> y \<in> set ys \<Longrightarrow> \<exists>x \<in> set xs. f x = Inr y"
proof (induction xs arbitrary: ys)
  case Nil
  then show ?case by simp
next
  case (Cons x xs)
  then show ?case by (auto split: sum.splits)
qed

lemma threshold_to_int_Inr:
  "threshold_to_int x = Inr y \<Longrightarrow>
     Particle_count_threshold y \<noteq> None \<and> Particle_count_maxima y = Particle_count_maxima x"
  by (auto simp: threshold_to_int_def int_of_cell_def split: option.splits)

lemma maxima_to_int_Inr:
  "maxima_to_int x = Inr y \<Longrightarrow>
     Particle_count_maxima y \<noteq> None \<and> Particle_count_threshold y = Particle_count_threshold x"
  by (auto simp: maxima_to_int_def int_of_cell_def split: option.splits)

lemma clean_table_sorted:
  assumes "clean_table mode tbl = Inr rows"
  shows "sorted (map (\<lambda>row. (Image_used row, Cell_quantified row)) rows)"
  using assms unfolding clean_table_def Let_def
  by (auto split: sum.splits if_splits)

lemma clean_table_counts:
  assumes "clean_table mode tbl = Inr rows" and "row \<in> set rows"
  shows "(active mode Thresholding \<longrightarrow> Particle_count_threshold row \<noteq> None)
       \<and> (active mode Find_Maxima \<longrightarrow> Particle_count_maxima row \<noteq> None)"
proof -
  from assms(1) obtain t4 t5 t6 where
      t5: "(if mode = Both \<or> mode = Thresholding_only
            then apply_all threshold_to_int t4 else Inr t4) = Inr t5"
    and t6: "(if mode = Both \<or> mode = Find_Maxima_only
            then apply_all maxima_to_int t5 else Inr t5) = Inr t6"
    and rows: "rows = sort_key (\<lambda>row. (Image_used row, Cell_quantified row)) t6"
    unfolding clean_table_def Let_def by (auto split: sum.splits)
  from assms(2) rows have in6: "row \<in> set t6" by simp
  have T5: "active mode Thresholding \<Longrightarrow> \<forall>y \<in> set t5. Particle_count_threshold y \<noteq> None"
    using t5 apply_all_set [of threshold_to_int t4 t5] threshold_to_int_Inr
    by (fastforce simp: active_def)
  show ?thesis
  proof (cases "mode = Both \<or> mode = Find_Maxima_only")
    case True
    with t6 have "apply_all maxima_to_int t5 = Inr t6" by simp
    from apply_all_set [OF this in6] obtain x where
      x: "x \<in> set t5" "maxima_to_int x = Inr row" by blast
    from maxima_to_int_Inr [OF x(2)] T5 x(1) show ?thesis by auto
  next
    case False
    with t6 have "t6 = t5" by simp
    with in6 T5 False show ?thesis by (auto simp: active_def)
  qed
qed

lemma row_info_fits:
  assumes "active mode Thresholding \<longrightarrow> Particle_count_threshold row \<noteq> None"
    and "active mode Find_Maxima \<longrightarrow> Particle_count_maxima row \<noteq> None"
  shows "fits mode (row_info mode cond row)"
  using assms by (cases mode) (simp_all add: fits_def active_def row_info_def Let_def)

lemma extract_all_set:
  "extract_all mode acc conds = Inr recs \<Longrightarrow> r \<in> set recs \<Longrightarrow>
     r \<in> set acc \<or> (\<exists>cond \<in> set conds. \<exists>rows. \<exists>row \<in> set rows.
        clean_table mode (csv_table cond) = Inr rows \<and> r = row_info mode cond row)"
proof (induction conds arbitrary: acc)
  case Nil
  then show ?case by simp
next
  case (Cons cond conds)
  from Cons.prems(1) obtain cr where cr: "condition_records mode cond = Inr cr"
    and rest: "extract_all mode (acc @ cr) conds = Inr recs"
    by (auto split: sum.splits)
  from cr obtain rows where rows: "clean_table mode (csv_table cond) = Inr rows"
    and crm: "cr = map (row_info mode cond) rows"
    by (auto simp: condition_records_def split: sum.splits)
  from Cons.IH [OF rest Cons.prems(2)] show ?case
  proof
    assume "r \<in> set (acc @ cr)"
    then show ?thesis using rows crm by auto
  next
    assume "\<exists>cond \<in> set conds. \<exists>rows. \<exists>row \<in> set rows.
        clean_table mode (csv_table cond) = Inr rows \<and> r = row_info mode cond row"
    then show ?thesis by auto
  qed
qed

lemma extract_all_fits:
  assumes "extract_all mode [] conds = Inr recs" and "r \<in> set recs"
  shows "fits mode r"
proof -
  from extract_all_set [OF assms] obtain cond rows row where
    "clean_table mode (csv_table cond) = Inr rows" "row \<in> set rows"
    "r = row_info mode cond row" by auto
  then show ?thesis using clean_table_counts row_info_fits by blast
qed

subsection \<open>\<open>int\<close> undoes \<open>str\<close>\<close>

lemma digit_val_digit_char: "d < 10 \<Longrightarrow> digit_val (digit_char d) = Some d"
proof -
  assume "d < 10"
  then have "d = 0 \<or> d = 1 \<or> d = 2 \<or> d = 3 \<or> d = 4 \<or> d = 5 \<or> d = 6
      \<or> d = 7 \<or> d = 8 \<or> d = 9" by arith
  then show ?thesis
    by (elim disjE) (simp_all add: digit_val_def digit_char_def upt_conv_Cons)
qed

lemma digit_char_plain:
  "d < 10 \<Longrightarrow> \<not> is_space (digit_char d) \<and> digit_char d \<noteq> CHR ''_''
      \<and> digit_char d \<noteq> CHR ''-'' \<and> digit_char d \<noteq> CHR ''+''"
proof -
  assume "d < 10"
  then have "d = 0 \<or> d = 1 \<or> d = 2 \<or> d = 3 \<or> d = 4 \<or> d = 5 \<or> d = 6
      \<or> d = 7 \<or> d = 8 \<or> d = 9" by arith
  then show ?thesis
    by (elim disjE) (simp_all add: is_space_def digit_char_def)
qed

lemma digits_last: "\<exists>ds. digits n = ds @ [digit_char (n mod 10)]"
  by (subst digits.simps) auto

lemma digits_hd: "\<exists>d < 10. \<exists>ds. digits n = digit_char d # ds"
proof (induction n rule: digits.induct)
  case (1 n)
  show ?case
  proof (cases "n < 10")
    case True
    then show ?thesis by (subst digits.simps) auto
  next
    case False
    with 1 obtain d ds where "d < 10" "digits (n div 10) = digit_char d # ds" by auto
    with False show ?thesis by (subst digits.simps) auto
  qed
qed

lemma need_digit_snoc:
  "d < 10 \<Longrightarrow> need_digit acc cs = Some m \<Longrightarrow>
     need_digit acc (cs @ [digit_char d]) = Some (10 * m + d)"
  and after_digit_snoc:
  "d < 10 \<Longrightarrow> after_digit acc cs = Some m \<Longrightarrow>
     after_digit acc (cs @ [digit_char d]) = Some (10 * m + d)"
proof (induction acc cs and acc cs rule: need_digit_after_digit.induct)
  case (1 acc)
  then show ?case by simp
next
  case (2 acc c cs)
  then show ?case by (auto split: option.splits)
next
  case (3 acc)
  then show ?case by (simp add: digit_val_digit_char digit_char_plain)
next
  case (4 acc c cs)
  then show ?case by (auto split: option.splits if_splits)
qed

lemma need_digit_digits: "need_digit 0 (digits n) = Some n"
proof (induction n rule: digits.induct)
  case (1 n)
  show ?case
  proof (cases "n < 10")
    case True
    then show ?thesis by (subst digits.simps) (simp add: digit_val_digit_char)
  next
    case False
    with 1 have "need_digit 0 (digits (n div 10)) = Some (n div 10)" by simp
    then have "need_digit 0 (digits (n div 10) @ [digit_char (n mod 10)])
                 = Some (10 * (n div 10) + n mod 10)"
      by (intro need_digit_snoc) simp_all
    with False show ?thesis by (subst digits.simps) simp
  qed
qed

lemma strip_plain:
  assumes "s = c # cs" and "\<not> is_space c" and "s = bs @ [b]" and "\<not> is_space b"
  shows "strip s = s"
proof -
  have "dropWhile is_space s = s" using assms(1,2) by simp
  moreover have "dropWhile is_space (rev s) = rev s" using assms(3,4) by simp
  ultimately show ?thesis by (simp add: strip_def)
qed

lemma strip_digits: "strip (digits n) = digits n"
proof -
  obtain d ds where d: "d < 10" "digits n = digit_char d # ds" using digits_hd by blast
  obtain bs where b: "digits n = bs @ [digit_char (n mod 10)]" using digits_last by blast
  show ?thesis
    using strip_plain [OF d(2) _ b] digit_char_plain [OF d(1)] digit_char_plain [of "n mod 10"]
    by simp
qed

lemma strip_minus_digits: "strip (CHR ''-'' # digits n) = CHR ''-'' # digits n"
proof -
  obtain bs where b: "digits n = bs @ [digit_char (n mod 10)]" using digits_last by blast
  then have "CHR ''-'' # digits n = (CHR ''-'' # bs) @ [digit_char (n mod 10)]" by simp
  from strip_plain [OF refl _ this] digit_char_plain [of "n mod 10"]
  show ?thesis by (simp add: is_space_def)
qed

lemma py_int_py_str: "py_int (py_str n) = Inr n"
proof (cases "n < 0")
  case True
  then show ?thesis
    by (simp add: py_int_def py_str_def strip_minus_digits need_digit_digits)
next
  case False
  obtain d ds where d: "d < 10" "digits (nat n) = digit_char d # ds" using digits_hd by blast
  have "take 1 (digits (nat n)) \<noteq> ''-''" "take 1 (digits (nat n)) \<noteq> ''+''"
    using d digit_char_plain [OF d(1)] by simp_all
  with False show ?thesis
    by (simp add: py_int_def py_str_def strip_digits need_digit_digits Let_def)
qed

subsection \<open>Fields of a record\<close>

lemma map_sum_InrE:
  assumes "map_sum id f x = Inr y"
  obtains p where "x = Inr p" and "f p = y"
  using assms by (cases x) simp_all

lemma row_info_fields:
  "ROI_subtitle (row_info mode cond row) = Image_used row"
  "ROI_name (row_info mode cond row) = py_str (Cell_quantified row)"
  by (cases mode; simp add: row_info_def Let_def)+

section \<open>From the tables to the presentations\<close>





lemma mask_and_count_together:
  assumes "extract_all mode [] conds = Inr recs" and "r \<in> set recs"
  shows "(ROI_Tcount_image r = None) = (ROI_Tcount r = None)
       \<and> (ROI_FMcount_image r = None) = (ROI_FMcount r = None)"
  using extract_all_fits [OF assms] by (auto simp: fits_def split: if_splits)

section \<open>The claims\<close>

text \<open>
  C1.  The claim: k records of one title and subtitle give k / 20 groups, rounded up,
  the last one holding the remainder; 23 records give groups of sizes 20 and 3, and 20
  records give one group.  The code never appends the open group after the loop.  For one
  condition with the cells 1 to 23 of one image, \<open>process_files\<close> returns the single group
  of the cells 1 to 20; with the cells 1 to 20 it returns no group at all.
\<close>

theorem same_group_runs_lose_last_group:
  "map_sum id (map (\<lambda>page. (length page, ROI_name (hd page), ROI_name (last page))))
     (process_files Both [one_condition (image_rows ''MAX_A.tif'' [1 ..< 24])])
   = Inr [(20, ''1'', ''20'')]
   \<and> process_files Both [one_condition (image_rows ''MAX_A.tif'' [1 ..< 21])] = Inr []"
  by code_simp

text \<open>
  C2.  The claim: the groups, concatenated in order, are the input.  For one condition
  with a single cell the extraction yields one record and \<open>process_files\<close> returns no
  group, so the concatenation of the groups is empty and the record is lost.
\<close>

theorem single_record_is_dropped:
  "map_sum id (map ROI_name) (extract_all Both [] [one_condition (image_rows ''MAX_A.tif'' [1])])
     = Inr [''1'']
   \<and> process_files Both [one_condition (image_rows ''MAX_A.tif'' [1])] = Inr []"
  by code_simp

text \<open>
  C3.  The claim: five records of subtitle A followed by three of subtitle B, all of one
  title, give two groups of sizes 5 and 3.  The change of subtitle does close the first
  group after five records, but \<open>process_files\<close> returns that group alone: the three
  records of subtitle B stay in the open group.
\<close>

theorem subtitle_change_run:
  "map_sum id (map (map (\<lambda>r. (ROI_subtitle r, ROI_name r))))
     (process_files Both [one_condition (image_rows ''MAX_A.tif'' [1 ..< 6]
                                        @ image_rows ''MAX_B.tif'' [1 ..< 4])])
   = Inr [[(''A'', ''1''), (''A'', ''2''), (''A'', ''3''), (''A'', ''4''), (''A'', ''5'')]]"
  by code_simp

text \<open>
  C4.  Whenever the grouping returns (that is, on every non-empty input), every group it
  returns holds at least 1 and at most 20 records: the capacity is never exceeded and an
  empty group is never appended.
\<close>

theorem group_sizes_1_to_20:
  assumes "group_slides xs = Inr pages" and "page \<in> set pages"
  shows "1 \<le> length page \<and> length page \<le> 20"
  using assms by (rule group_slides_sizes)

theorem group_sizes_1_to_20_witness:
  "group_slides (replicate 23 (sample_info ''T'' ''A'')) = Inr [replicate 20 (sample_info ''T'' ''A'')]
   \<and> 1 \<le> length (replicate 20 (sample_info ''T'' ''A''))
   \<and> length (replicate 20 (sample_info ''T'' ''A'')) \<le> 20"
proof -
  have h: "group_slides (replicate 23 (sample_info ''T'' ''A''))
             = Inr [replicate 20 (sample_info ''T'' ''A'')]"
    by (rule run_23)
  have m: "replicate 20 (sample_info ''T'' ''A'') \<in> set [replicate 20 (sample_info ''T'' ''A'')]"
    by simp
  show ?thesis using h group_sizes_1_to_20 [OF h m] by simp
qed

text \<open>
  C5.  Whenever the grouping returns, every group it returns is homogeneous: all its
  records have the same title and the same subtitle.
\<close>

theorem groups_homogeneous:
  assumes "group_slides xs = Inr pages" and "page \<in> set pages"
  shows "homogeneous page"
proof (cases xs)
  case Nil
  with assms show ?thesis by (simp add: group_slides_def)
next
  case (Cons x rest)
  define s0 where "s0 = \<lparr>all_slides_content = [], temp_slide = [],
      current_title = ROI_title x, current_subtitle = ROI_subtitle x\<rparr>"
  have p: "pages = all_slides_content (group_loop s0 xs)"
    using assms(1) Cons by (simp add: group_slides_Cons s0_def)
  have "groups_ok s0" by (simp add: groups_ok_def s0_def)
  then have "groups_ok (group_loop s0 xs)" by (rule groups_ok_loop)
  with assms(2) show ?thesis unfolding p by (simp add: groups_ok_def)
qed

theorem groups_homogeneous_witness:
  "group_slides (replicate 5 (sample_info ''T'' ''A'') @ replicate 3 (sample_info ''T'' ''B''))
     = Inr [replicate 5 (sample_info ''T'' ''A'')]
   \<and> homogeneous (replicate 5 (sample_info ''T'' ''A''))"
proof -
  have h: "group_slides (replicate 5 (sample_info ''T'' ''A'') @ replicate 3 (sample_info ''T'' ''B''))
             = Inr [replicate 5 (sample_info ''T'' ''A'')]"
    by (rule run_5_3)
  have m: "replicate 5 (sample_info ''T'' ''A'') \<in> set [replicate 5 (sample_info ''T'' ''A'')]"
    by simp
  show ?thesis using h groups_homogeneous [OF h m] by simp
qed

text \<open>
  C6.  The records that the extraction makes of one condition's table are sorted by
  subtitle and then by the number of the cell, in ascending order; the cells are compared
  as integers, so that cell 9 comes before cell 10 of the same subtitle.
\<close>

theorem records_sorted_numerically:
  assumes "condition_records mode cond = Inr recs"
  shows "sorted (map (\<lambda>r. (ROI_subtitle r, roi_id r)) recs)"
proof -
  from assms obtain rows where rows: "clean_table mode (csv_table cond) = Inr rows"
    and recs: "recs = map (row_info mode cond) rows"
    by (auto simp: condition_records_def split: sum.splits)
  have "map (\<lambda>r. (ROI_subtitle r, roi_id r)) recs
          = map (\<lambda>row. (Image_used row, Cell_quantified row)) rows"
    unfolding recs by (simp add: roi_id_def row_info_fields py_int_py_str)
  with clean_table_sorted [OF rows] show ?thesis by simp
qed

theorem records_sorted_numerically_witness:
  "\<exists>recs. condition_records Both sample_condition = Inr recs
      \<and> map (\<lambda>r. (ROI_subtitle r, ROI_name r)) recs
          = [(''Row_01_05'', ''9''), (''Row_01_05'', ''10''), (''Row_02_05'', ''3'')]
      \<and> sorted (map (\<lambda>r. (ROI_subtitle r, roi_id r)) recs)"
proof -
  have "map_sum id (map (\<lambda>r. (ROI_subtitle r, ROI_name r)))
          (condition_records Both sample_condition)
        = Inr [(''Row_01_05'', ''9''), (''Row_01_05'', ''10''), (''Row_02_05'', ''3'')]"
    by code_simp
  then obtain recs where
    h: "condition_records Both sample_condition = Inr recs"
    and m: "map (\<lambda>r. (ROI_subtitle r, ROI_name r)) recs
          = [(''Row_01_05'', ''9''), (''Row_01_05'', ''10''), (''Row_02_05'', ''3'')]"
    by (rule map_sum_InrE)
  from records_sorted_numerically [OF h]
  have "condition_records Both sample_condition = Inr recs
      \<and> map (\<lambda>r. (ROI_subtitle r, ROI_name r)) recs
          = [(''Row_01_05'', ''9''), (''Row_01_05'', ''10''), (''Row_02_05'', ''3'')]
      \<and> sorted (map (\<lambda>r. (ROI_subtitle r, roi_id r)) recs)"
    using h m by simp
  then show ?thesis by (rule exI)
qed




text \<open>
  C8.  The claim: the mask image is the fluorescence image's path with the folder
  \<open>Fluorescence\<close> replaced by \<open>T_Particles\<close> (or \<open>FM_Particles\<close>) and the ending
  \<open>_2.jpg\<close> replaced by \<open>_1.jpg\<close>.  The code replaces every occurrence of
  \<open>Fluorescence\<close> in the whole path.  For a condition whose folder is called
  \<open>Fluorescence ctrl\<close> the mask image is looked for under \<open>/Data/T_Particles ctrl\<close>, a
  folder that is not there, instead of
  \<open>/Data/Fluorescence ctrl/Cropped cells/T_Particles/A/1_1.jpg\<close>.
\<close>

theorem mask_path_renames_condition_folder:
  "map_sum id (map (\<lambda>r. (ROI_Fluorescence_image r, ROI_Tcount_image r, ROI_FMcount_image r)))
     (extract_all Both [] [fluorescence_ctrl])
   = Inr [(''/Data/Fluorescence ctrl/Cropped cells/Fluorescence/A/1_2.jpg'',
           Some ''/Data/T_Particles ctrl/Cropped cells/T_Particles/A/1_1.jpg'',
           Some ''/Data/FM_Particles ctrl/Cropped cells/FM_Particles/A/1_1.jpg'')]"
  by code_simp

text \<open>
  C9.  Two runs of \<open>slide_maker\<close> for the same number of records that both return give
  slides whose shapes have, one by one, the same position and size, whatever the titles,
  images, labels and counts are, and whatever the presentation held before.
\<close>

theorem geometry_independent_of_content:
  assumes "slide_maker pres1 t1 s1 n F1 P1 FL1 PL1 = Inr pres1'"
    and "slide_maker pres2 t2 s2 n F2 P2 FL2 PL2 = Inr pres2'"
  shows "map shape_geometry (last pres1') = map shape_geometry (last pres2')"
  using assms by (auto simp: slide_maker_iff concat_blocks_geometry)

theorem geometry_independent_of_content_witness:
  "\<exists>p1 p2.
     slide_maker [] ''T'' ''A'' 2 [''a_2.jpg'', ''b_2.jpg''] [Some ''a_1.jpg'', Some ''b_1.jpg'']
       [''1'', ''2''] [Some 3, Some 4] = Inr p1
   \<and> slide_maker [[]] ''U'' ''B'' 2 [''c_2.jpg'', ''d_2.jpg''] [Some ''c_1.jpg'', Some ''d_1.jpg'']
       [''17'', ''18''] [Some 0, Some 25] = Inr p2
   \<and> map shape_text (last p1) =
         [Some ''T'', Some ''A'', None, Some ''1'', None, Some ''P=3'',
          None, Some ''2'', None, Some ''P=4'']
   \<and> map shape_text (last p2) =
         [Some ''U'', Some ''B'', None, Some ''17'', None, Some ''P=0'',
          None, Some ''18'', None, Some ''P=25'']
   \<and> map shape_geometry (last p1) = map shape_geometry (last p2)"
proof -
  have "map_sum id (\<lambda>p. map shape_text (last p))
          (slide_maker [] ''T'' ''A'' 2 [''a_2.jpg'', ''b_2.jpg'']
             [Some ''a_1.jpg'', Some ''b_1.jpg''] [''1'', ''2''] [Some 3, Some 4])
        = Inr [Some ''T'', Some ''A'', None, Some ''1'', None, Some ''P=3'',
               None, Some ''2'', None, Some ''P=4'']"
    by code_simp
  then obtain p1 where
    h1: "slide_maker [] ''T'' ''A'' 2 [''a_2.jpg'', ''b_2.jpg'']
             [Some ''a_1.jpg'', Some ''b_1.jpg''] [''1'', ''2''] [Some 3, Some 4] = Inr p1"
    and m1: "map shape_text (last p1) =
         [Some ''T'', Some ''A'', None, Some ''1'', None, Some ''P=3'',
          None, Some ''2'', None, Some ''P=4'']"
    by (rule map_sum_InrE)
  have "map_sum id (\<lambda>p. map shape_text (last p))
          (slide_maker [[]] ''U'' ''B'' 2 [''c_2.jpg'', ''d_2.jpg'']
             [Some ''c_1.jpg'', Some ''d_1.jpg''] [''17'', ''18''] [Some 0, Some 25])
        = Inr [Some ''U'', Some ''B'', None, Some ''17'', None, Some ''P=0'',
               None, Some ''18'', None, Some ''P=25'']"
    by code_simp
  then obtain p2 where
    h2: "slide_maker [[]] ''U'' ''B'' 2 [''c_2.jpg'', ''d_2.jpg'']
             [Some ''c_1.jpg'', Some ''d_1.jpg''] [''17'', ''18''] [Some 0, Some 25] = Inr p2"
    and m2: "map shape_text (last p2) =
         [Some ''U'', Some ''B'', None, Some ''17'', None, Some ''P=0'',
          None, Some ''18'', None, Some ''P=25'']"
    by (rule map_sum_InrE)
  from geometry_independent_of_content [OF h1 h2]
  have "slide_maker [] ''T'' ''A'' 2 [''a_2.jpg'', ''b_2.jpg''] [Some ''a_1.jpg'', Some ''b_1.jpg'']
       [''1'', ''2''] [Some 3, Some 4] = Inr p1
   \<and> slide_maker [[]] ''U'' ''B'' 2 [''c_2.jpg'', ''d_2.jpg''] [Some ''c_1.jpg'', Some ''d_1.jpg'']
       [''17'', ''18''] [Some 0, Some 25] = Inr p2
   \<and> map shape_text (last p1) =
         [Some ''T'', Some ''A'', None, Some ''1'', None, Some ''P=3'',
          None, Some ''2'', None, Some ''P=4'']
   \<and> map shape_text (last p2) =
         [Some ''U'', Some ''B'', None, Some ''17'', None, Some ''P=0'',
          None, Some ''18'', None, Some ''P=25'']
   \<and> map shape_geometry (last p1) = map shape_geometry (last p2)"
    using h1 h2 m1 m2 by simp
  then show ?thesis by (intro exI)
qed

text \<open>
  C10.  When the extraction yields no record at all, \<open>process_files\<close> raises
  \<open>IndexError\<close> (reading the first record's title, before the grouping loop starts)
  instead of returning an empty list of groups.
\<close>

theorem no_records_raises:
  assumes "extract_all mode [] conds = Inr []"
  shows "process_files mode conds = Inl IndexError"
  using assms by (simp add: process_files_def group_slides_def)

theorem no_records_raises_witness:
  "extract_all Both [] [\<lparr>csv_root_folder = ''Cond1'',
       csv_file = ''/Data/Cond1/Quantification/Results.csv'', csv_table = []\<rparr>] = Inr []
   \<and> process_files Both [\<lparr>csv_root_folder = ''Cond1'',
       csv_file = ''/Data/Cond1/Quantification/Results.csv'', csv_table = []\<rparr>]
      = Inl IndexError"
proof -
  have h: "extract_all Both [] [\<lparr>csv_root_folder = ''Cond1'',
       csv_file = ''/Data/Cond1/Quantification/Results.csv'', csv_table = []\<rparr>] = Inr []"
    by (simp add: condition_records_def clean_table_def)
  from h no_records_raises [OF h] show ?thesis by simp
qed

end
